theory Spec2Isabelle
  imports Main
begin

section \<open>Item store: a shallow embedding of main.py\<close>

text \<open>
  The service keeps one collection of items in a JSON file and rereads the whole file in
  every request handler. The handlers are modelled as functions from the state of the
  world before the request to a result and the state of the world after it.

  Strings are lists of characters with code points 0 to 255. Prices are floating point in
  the source; no handler computes with a price, so the price type is a parameter.
\<close>

subsection \<open>Data model\<close>

text \<open>
  \<^verbatim>\<open>class Item\<close>. An instance can hold \<^verbatim>\<open>None\<close> in every field at run time: the
  declared types are enforced only when an instance is built from raw data
  (\<^verbatim>\<open>Item(**d)\<close>), not by \<^verbatim>\<open>copy(update=...)\<close> nor by attribute assignment. The same
  record stands for the dictionary \<^verbatim>\<open>item.dict()\<close> and for a decoded JSON object of the
  backing file, where a missing key and a \<^verbatim>\<open>null\<close> both read as \<open>None\<close>.
\<close>

record 'p Item =
  id' :: "string option"
  name :: "string option"
  description :: "string option"
  price :: "'p option"
  quantity :: "int option"

text \<open>
  \<^verbatim>\<open>class ItemUpdate\<close>. With \<^verbatim>\<open>dict(exclude_unset=True)\<close> a field has three states:
  not supplied (\<open>None\<close>), supplied as \<^verbatim>\<open>null\<close> (\<open>Some None\<close>), supplied with a value.
\<close>

record 'p ItemUpdate =
  upd_name :: "string option option"
  upd_description :: "string option option"
  upd_price :: "'p option option"
  upd_quantity :: "int option option"

text \<open>
  \<open>NotFound\<close> is \<^verbatim>\<open>HTTPException(status_code=404)\<close>; the others are exceptions no
  handler catches, which the framework answers with status 500.
\<close>

datatype error =
  NotFound | ValidationError | TypeError | ValueError | UnicodeDecodeError | RecursionError

text \<open>The two \<^verbatim>\<open>print\<close> calls of the storage helpers.\<close>

datatype diagnostic = ReadError | WriteError

text \<open>
  An element of a JSON array, as \<^verbatim>\<open>Item(**item)\<close> sees it: an object whose five fields are
  each missing, \<^verbatim>\<open>null\<close> or a value the field's type accepts (other keys are ignored); an
  object with a value that the type of its field rejects; or something that is not an
  object.
\<close>

datatype 'p entry = Object "'p Item" | IllTyped | NotObject

text \<open>
  What is at \<^verbatim>\<open>DATA_FILE\<close>, by what \<^verbatim>\<open>json.load\<close> makes of its bytes: no file; bytes that
  are not UTF-8 (\<^verbatim>\<open>UnicodeDecodeError\<close>); text nested too deeply for the decoder
  (\<^verbatim>\<open>RecursionError\<close>); text the decoder rejects with \<^verbatim>\<open>JSONDecodeError\<close>; and the values it
  returns: one that cannot be iterated (\<^verbatim>\<open>null\<close>, a truth value, a number), a string
  (iterated by characters), an object (iterated by keys), an array.
\<close>

datatype 'p backing =
  Absent | NotUTF8 | TooDeep | InvalidJSON | Scalar | Text string | Keys "string list"
  | Array "'p entry list"

text \<open>
  The documents \<open>write_data\<close> produces: an array of objects over the five keys of \<open>Item\<close>,
  each value \<^verbatim>\<open>null\<close> or of the field's type.
\<close>

abbreviation Doc :: "'p Item list \<Rightarrow> 'p backing" where
  "Doc items \<equiv> Array (map Object items)"

text \<open>
  The world: the backing file; whether opening or reading an existing file raises
  \<^verbatim>\<open>IOError\<close> and whether opening it for writing does (two properties of the environment,
  for instance the permissions of the file, which no handler changes); and what was
  printed.
\<close>

record 'p world =
  data_file :: "'p backing"
  read_fails :: bool
  write_fails :: bool
  stdout :: "diagnostic list"

subsection \<open>Python's \<^verbatim>\<open>int(str)\<close>, \<^verbatim>\<open>str(int)\<close> and \<^verbatim>\<open>max\<close>\<close>

definition is_digit :: "char \<Rightarrow> bool" where
  "is_digit c \<longleftrightarrow> 48 \<le> (of_char c :: nat) \<and> (of_char c :: nat) \<le> 57"

definition digit_val :: "char \<Rightarrow> nat" where
  "digit_val c = of_char c - 48"

text \<open>
  The characters \<^verbatim>\<open>int\<close> skips around a number: tab, line feed, vertical tab, form
  feed, carriage return, space, and in the range above 127 next line and no-break space.
  Decimal digits of other scripts, which \<^verbatim>\<open>int\<close> also reads, have code points above 255
  and are outside the strings of this model.
\<close>

definition is_space :: "char \<Rightarrow> bool" where
  "is_space c \<longleftrightarrow> (of_char c :: nat) \<in> {9, 10, 11, 12, 13, 32, 133, 160}"

text \<open>
  \<^verbatim>\<open>sys.get_int_max_str_digits()\<close>, by default: \<^verbatim>\<open>int\<close> raises \<^verbatim>\<open>ValueError\<close> on a string
  with more digits, and \<^verbatim>\<open>str\<close> on an integer with more digits; sign, white space and
  underscores do not count.
\<close>

definition int_max_str_digits :: nat where
  "int_max_str_digits = 4300"

text \<open>
  After the first digit: more digits, a single underscore between two digits, then only
  white space up to the end.
\<close>

fun digits_acc :: "nat \<Rightarrow> string \<Rightarrow> nat option" where
  "digits_acc acc [] = Some acc"
| "digits_acc acc (c # cs) =
     (if is_digit c then digits_acc (10 * acc + digit_val c) cs
      else if c = CHR ''_'' then
        (case cs of
           [] \<Rightarrow> None
         | d # ds \<Rightarrow> if is_digit d then digits_acc (10 * acc + digit_val d) ds else None)
      else if list_all is_space (c # cs) then Some acc
      else None)"

definition parse_digits :: "string \<Rightarrow> nat option" where
  "parse_digits s =
     (case s of
        [] \<Rightarrow> None
      | c # cs \<Rightarrow>
          if is_digit c then
            (case digits_acc (digit_val c) cs of
               None \<Rightarrow> None
             | Some n \<Rightarrow>
                 if length (filter is_digit s) \<le> int_max_str_digits then Some n else None)
          else None)"

definition parse_int :: "string \<Rightarrow> int option" where
  "parse_int s =
     (case dropWhile is_space s of
        [] \<Rightarrow> None
      | c # cs \<Rightarrow>
          if c = CHR ''-'' then map_option (\<lambda>n. - int n) (parse_digits cs)
          else if c = CHR ''+'' then map_option int (parse_digits cs)
          else map_option int (parse_digits (c # cs)))"

text \<open>
  \<^verbatim>\<open>int(existing_item.id)\<close>: \<^verbatim>\<open>int(None)\<close> raises \<^verbatim>\<open>TypeError\<close>, a string that is not a
  number raises \<^verbatim>\<open>ValueError\<close>.
\<close>

definition py_int :: "string option \<Rightarrow> error + int" where
  "py_int v =
     (case v of
        None \<Rightarrow> Inl TypeError
      | Some s \<Rightarrow> (case parse_int s of None \<Rightarrow> Inl ValueError | Some n \<Rightarrow> Inr n))"

fun digit_chars :: "nat \<Rightarrow> string \<Rightarrow> string" where
  "digit_chars n acc =
     (if n < 10 then char_of (48 + n) # acc
      else digit_chars (n div 10) (char_of (48 + n mod 10) # acc))"

text \<open>The decimal numeral of an integer, and its number of digits.\<close>

definition decimal :: "int \<Rightarrow> string" where
  "decimal n = (if n < 0 then CHR ''-'' # digit_chars (nat (- n)) [] else digit_chars (nat n) [])"

definition decimal_digits :: "int \<Rightarrow> nat" where
  "decimal_digits n = length (digit_chars (nat \<bar>n\<bar>) [])"

text \<open>\<^verbatim>\<open>str(n)\<close>: the decimal numeral, unless it has too many digits.\<close>

definition py_str :: "int \<Rightarrow> error + string" where
  "py_str n =
     (if int_max_str_digits < decimal_digits n then Inl ValueError else Inr (decimal n))"

text \<open>\<^verbatim>\<open>max(xs, default=d)\<close>: the default for no element, else the first greatest one.\<close>

fun py_max :: "int list \<Rightarrow> int \<Rightarrow> int" where
  "py_max [] d = d"
| "py_max (x # xs) d = foldl (\<lambda>m y. if m < y then y else m) x xs"

text \<open>A list comprehension whose element expression can raise stops at the first raise.\<close>

fun comprehension :: "('a \<Rightarrow> error + 'b) \<Rightarrow> 'a list \<Rightarrow> error + 'b list" where
  "comprehension f [] = Inr []"
| "comprehension f (x # xs) =
     (case f x of
        Inl e \<Rightarrow> Inl e
      | Inr y \<Rightarrow> (case comprehension f xs of Inl e \<Rightarrow> Inl e | Inr ys \<Rightarrow> Inr (y # ys)))"

subsection \<open>Storage helpers\<close>

text \<open>
  \<^verbatim>\<open>Item(**item)\<close>: \<open>name\<close>, \<open>price\<close> and \<open>quantity\<close> are required and not optional, so
  a missing or \<^verbatim>\<open>null\<close> value raises the validation error; \<open>id\<close> and \<open>description\<close> are
  optional.
\<close>

definition valid_item :: "'p Item \<Rightarrow> bool" where
  "valid_item x \<longleftrightarrow> name x \<noteq> None \<and> price x \<noteq> None \<and> quantity x \<noteq> None"

definition validate :: "'p Item \<Rightarrow> error + 'p Item" where
  "validate x = (if valid_item x then Inr x else Inl ValidationError)"

text \<open>
  \<^verbatim>\<open>Item(**item)\<close> for an element of the loaded value: \<^verbatim>\<open>**\<close> raises \<^verbatim>\<open>TypeError\<close> on
  what is not a mapping.
\<close>

fun build_item :: "'p entry \<Rightarrow> error + 'p Item" where
  "build_item (Object x) = validate x"
| "build_item IllTyped = Inl ValidationError"
| "build_item NotObject = Inl TypeError"

text \<open>
  \<^verbatim>\<open>read_data\<close>. The \<^verbatim>\<open>except\<close> clause names \<^verbatim>\<open>json.JSONDecodeError\<close> and \<^verbatim>\<open>IOError\<close>
  only: every other exception of \<^verbatim>\<open>json.load\<close> and of the comprehension leaves the
  function. Iterating a value that cannot be iterated raises \<^verbatim>\<open>TypeError\<close>; the elements
  of a string and of an object (its keys) are strings, on which \<^verbatim>\<open>**\<close> raises \<^verbatim>\<open>TypeError\<close>.
\<close>

definition read_data :: "'p world \<Rightarrow> (error + 'p Item list) \<times> 'p world" where
  "read_data w =
     (if data_file w = Absent then (Inr [], w)
      else if read_fails w then (Inr [], w\<lparr>stdout := stdout w @ [ReadError]\<rparr>)
      else
        (case data_file w of
           Absent \<Rightarrow> (Inr [], w)
         | NotUTF8 \<Rightarrow> (Inl UnicodeDecodeError, w)
         | TooDeep \<Rightarrow> (Inl RecursionError, w)
         | InvalidJSON \<Rightarrow> (Inr [], w\<lparr>stdout := stdout w @ [ReadError]\<rparr>)
         | Scalar \<Rightarrow> (Inl TypeError, w)
         | Text s \<Rightarrow> (comprehension (\<lambda>item. Inl TypeError) s, w)
         | Keys ks \<Rightarrow> (comprehension (\<lambda>item. Inl TypeError) ks, w)
         | Array es \<Rightarrow> (comprehension build_item es, w)))"

text \<open>
  \<^verbatim>\<open>write_data\<close>: the whole file is replaced; an \<^verbatim>\<open>IOError\<close> is printed and not raised.
  The failure modelled is the one of \<^verbatim>\<open>open\<close>, which leaves the file as it was; a dump
  that breaks off after the file was truncated is not modelled. A write does not change
  whether the file can be read.
\<close>

definition write_data :: "'p Item list \<Rightarrow> 'p world \<Rightarrow> 'p world" where
  "write_data data w =
     (if write_fails w then w\<lparr>stdout := stdout w @ [WriteError]\<rparr>
      else w\<lparr>data_file := Doc data\<rparr>)"

subsection \<open>Request handlers\<close>


definition get_item :: "string \<Rightarrow> 'p world \<Rightarrow> (error + 'p Item) \<times> 'p world" where
  "get_item item_id w =
     (case read_data w of
        (Inl e, w') \<Rightarrow> (Inl e, w')
      | (Inr data, w') \<Rightarrow>
          (case find (\<lambda>item. id' item = Some item_id) data of
             None \<Rightarrow> (Inl NotFound, w')
           | Some item \<Rightarrow> (Inr item, w')))"

definition create_item :: "'p Item \<Rightarrow> 'p world \<Rightarrow> (error + 'p Item) \<times> 'p world" where
  "create_item item w =
     (case read_data w of
        (Inl e, w') \<Rightarrow> (Inl e, w')
      | (Inr data, w') \<Rightarrow>
          (case comprehension (\<lambda>existing_item. py_int (id' existing_item)) data of
             Inl e \<Rightarrow> (Inl e, w')
           | Inr ns \<Rightarrow>
               (case py_str (py_max ns 0 + 1) of
                  Inl e \<Rightarrow> (Inl e, w')
                | Inr new_id \<Rightarrow>
                    (let item1 = item\<lparr>id' := Some new_id\<rparr>
                     in (Inr item1, write_data (data @ [item1]) w')))))"

text \<open>
  The loop \<^verbatim>\<open>for idx, existing_item in enumerate(data)\<close> of \<^verbatim>\<open>update_item\<close> and
  \<^verbatim>\<open>patch_item\<close>: the index of the first item whose id equals the path id.
\<close>

fun scan :: "string \<Rightarrow> 'p Item list \<Rightarrow> nat \<Rightarrow> nat option" where
  "scan item_id [] idx = None"
| "scan item_id (existing_item # rest) idx =
     (if id' existing_item = Some item_id then Some idx else scan item_id rest (Suc idx))"

definition update_item :: "string \<Rightarrow> 'p Item \<Rightarrow> 'p world \<Rightarrow> (error + 'p Item) \<times> 'p world" where
  "update_item item_id item w =
     (case read_data w of
        (Inl e, w') \<Rightarrow> (Inl e, w')
      | (Inr data, w') \<Rightarrow>
          (case scan item_id data 0 of
             None \<Rightarrow> (Inl NotFound, w')
           | Some idx \<Rightarrow>
               (let item1 = item\<lparr>id' := Some item_id\<rparr>
                in (Inr item1, write_data (data[idx := item1]) w'))))"

text \<open>
  \<^verbatim>\<open>existing_item.copy(update=item_update.dict(exclude_unset=True))\<close>: every supplied
  field replaces the field of the copy, without validation.
\<close>

definition copy_update :: "'p Item \<Rightarrow> 'p ItemUpdate \<Rightarrow> 'p Item" where
  "copy_update existing_item item_update =
     existing_item
       \<lparr>name := (case upd_name item_update of None \<Rightarrow> name existing_item | Some v \<Rightarrow> v),
        description :=
          (case upd_description item_update of None \<Rightarrow> description existing_item | Some v \<Rightarrow> v),
        price := (case upd_price item_update of None \<Rightarrow> price existing_item | Some v \<Rightarrow> v),
        quantity :=
          (case upd_quantity item_update of None \<Rightarrow> quantity existing_item | Some v \<Rightarrow> v)\<rparr>"

definition patch_item ::
  "string \<Rightarrow> 'p ItemUpdate \<Rightarrow> 'p world \<Rightarrow> (error + 'p Item) \<times> 'p world" where
  "patch_item item_id item_update w =
     (case read_data w of
        (Inl e, w') \<Rightarrow> (Inl e, w')
      | (Inr data, w') \<Rightarrow>
          (case scan item_id data 0 of
             None \<Rightarrow> (Inl NotFound, w')
           | Some idx \<Rightarrow>
               (let updated_item = copy_update (data ! idx) item_update
                in (Inr updated_item, write_data (data[idx := updated_item]) w'))))"

definition delete_item :: "string \<Rightarrow> 'p world \<Rightarrow> (error + unit) \<times> 'p world" where
  "delete_item item_id w =
     (case read_data w of
        (Inl e, w') \<Rightarrow> (Inl e, w')
      | (Inr data, w') \<Rightarrow>
          (let new_data = filter (\<lambda>item. id' item \<noteq> Some item_id) data
           in if length new_data = length data then (Inl NotFound, w')
              else (Inr (), write_data new_data w')))"

subsection \<open>Notions of the specification\<close>

text \<open>
  An id is numeric when \<^verbatim>\<open>int\<close> accepts it in base 10: at most \<open>int_max_str_digits\<close>
  digits, with an optional sign, white space around and single underscores between digits.
  Its value is the integer read.
\<close>

definition numeric_id :: "'p Item \<Rightarrow> bool" where
  "numeric_id x \<longleftrightarrow> (case id' x of None \<Rightarrow> False | Some s \<Rightarrow> parse_int s \<noteq> None)"

definition id_value :: "'p Item \<Rightarrow> int" where
  "id_value x = the (parse_int (the (id' x)))"

text \<open>
  The id the specification gives a new item: the greatest value of the existing ids, or 0
  for an empty collection, plus 1, in decimal.
\<close>

definition spec_new_value :: "'p Item list \<Rightarrow> int" where
  "spec_new_value data = (if data = [] then 0 else Max (id_value ` set data)) + 1"

definition spec_new_id :: "'p Item list \<Rightarrow> string" where
  "spec_new_id data = decimal (spec_new_value data)"

text \<open>The empty partial update \<^verbatim>\<open>{}\<close>: no field supplied.\<close>

definition no_fields :: "'p ItemUpdate" where
  "no_fields = \<lparr>upd_name = None, upd_description = None, upd_price = None, upd_quantity = None\<rparr>"

subsection \<open>A sample store\<close>

text \<open>Prices of the samples are integers (cents); the price type is a parameter.\<close>

definition bolt :: "int Item" where
  "bolt = \<lparr>id' = Some ''3'', name = Some ''Bolt'', description = Some ''M4'', price = Some 25, quantity = Some 100\<rparr>"

definition nut :: "int Item" where
  "nut = \<lparr>id' = Some ''10'', name = Some ''Nut'', description = None, price = Some 10, quantity = Some 40\<rparr>"

definition widget :: "int Item" where
  "widget = \<lparr>id' = Some ''mine'', name = Some ''Widget'', description = None, price = Some 999, quantity = Some 3\<rparr>"

definition shop :: "int world" where
  "shop = \<lparr>data_file = Doc [bolt, nut], read_fails = False, write_fails = False, stdout = []\<rparr>"

definition gadget :: "int Item" where
  "gadget = \<lparr>id' = Some ''abc'', name = Some ''Gadget'', description = None, price = Some 5, quantity = Some 1\<rparr>"

definition tampered :: "int world" where
  "tampered = \<lparr>data_file = Doc [bolt, gadget], read_fails = False, write_fails = False, stdout = []\<rparr>"

definition fresh :: "int world" where
  "fresh = \<lparr>data_file = Absent, read_fails = False, write_fails = False, stdout = []\<rparr>"

definition corrupt :: "int world" where
  "corrupt = \<lparr>data_file = InvalidJSON, read_fails = False, write_fails = False, stdout = []\<rparr>"

text \<open>The sample store on a file that can be written and not read.\<close>

definition writeonly :: "int world" where
  "writeonly = \<lparr>data_file = Doc [bolt, nut], read_fails = True, write_fails = False, stdout = []\<rparr>"

text \<open>A file that is not UTF-8, and the JSON document \<^verbatim>\<open>[1]\<close>.\<close>

definition garbled :: "int world" where
  "garbled = \<lparr>data_file = NotUTF8, read_fails = False, write_fails = False, stdout = []\<rparr>"

definition foreign :: "int world" where
  "foreign = \<lparr>data_file = Array [NotObject], read_fails = False, write_fails = False, stdout = []\<rparr>"

text \<open>
  Stores whose only id is a string of nines: as many as \<^verbatim>\<open>int\<close> accepts, and one more.
\<close>

definition nines :: "nat \<Rightarrow> string" where
  "nines n = replicate n CHR ''9''"

definition brimful :: "int world" where
  "brimful =
     \<lparr>data_file = Doc [bolt\<lparr>id' := Some (nines int_max_str_digits)\<rparr>], read_fails = False,
      write_fails = False, stdout = []\<rparr>"

definition overlong :: "int world" where
  "overlong =
     \<lparr>data_file = Doc [bolt\<lparr>id' := Some (nines (Suc int_max_str_digits))\<rparr>], read_fails = False,
      write_fails = False, stdout = []\<rparr>"

text \<open>The sample store after \<^verbatim>\<open>PATCH /items/3\<close> with the body \<^verbatim>\<open>{"name": null}\<close>.\<close>

definition spoiled :: "int world" where
  "spoiled = \<lparr>data_file = Doc [bolt\<lparr>name := None\<rparr>, nut], read_fails = False, write_fails = False, stdout = []\<rparr>"

text \<open>The sample store on a file that cannot be opened for writing.\<close>

definition readonly :: "int world" where
  "readonly = \<lparr>data_file = Doc [bolt, nut], read_fails = False, write_fails = True, stdout = []\<rparr>"

section \<open>Properties\<close>

subsection \<open>Decimal strings\<close>

declare digit_chars.simps [simp del]

lemma digit_chars_append: "digit_chars n acc = digit_chars n [] @ acc"
proof (induction n arbitrary: acc rule: less_induct)
  case (less n)
  show ?case
  proof (cases "n < 10")
    case True
    then show ?thesis by (simp add: digit_chars.simps [of n])
  next
    case False
    then have lt: "n div 10 < n" by simp
    have "digit_chars n acc = digit_chars (n div 10) (char_of (48 + n mod 10) # acc)"
      using False by (simp add: digit_chars.simps [of n])
    also have "\<dots> = digit_chars (n div 10) [] @ (char_of (48 + n mod 10) # acc)"
      using less [OF lt] .
    also have "\<dots> = (digit_chars (n div 10) [] @ [char_of (48 + n mod 10)]) @ acc"
      by simp
    also have "digit_chars (n div 10) [] @ [char_of (48 + n mod 10)]
        = digit_chars (n div 10) [char_of (48 + n mod 10)]"
      using less [OF lt, of "[char_of (48 + n mod 10)]"] by simp
    also have "\<dots> = digit_chars n []"
      using False by (simp add: digit_chars.simps [of n])
    finally show ?thesis .
  qed
qed

lemma digit_chars_small: "n < 10 \<Longrightarrow> digit_chars n [] = [char_of (48 + n)]"
  by (simp add: digit_chars.simps [of n])

lemma digit_chars_large:
  "\<not> n < 10 \<Longrightarrow> digit_chars n [] = digit_chars (n div 10) [] @ [char_of (48 + n mod 10)]"
  using digit_chars_append [of "n div 10" "[char_of (48 + n mod 10)]"]
  by (simp add: digit_chars.simps [of n])

lemma is_digit_char_of: "(d::nat) < 10 \<Longrightarrow> is_digit (char_of (48 + d))"
  by (simp add: is_digit_def)

lemma digit_val_char_of: "(d::nat) < 10 \<Longrightarrow> digit_val (char_of (48 + d)) = d"
  by (simp add: digit_val_def)

lemma digit_chars_digits: "list_all is_digit (digit_chars n [])"
proof (induction n rule: less_induct)
  case (less n)
  show ?case
  proof (cases "n < 10")
    case True
    then show ?thesis by (simp add: is_digit_char_of digit_chars_small)
  next
    case False
    then have "n div 10 < n" by simp
    from less [OF this] False show ?thesis
      by (simp only: digit_chars_large [OF False] list_all_append) (simp add: is_digit_char_of)
  qed
qed

lemma digits_acc_digits:
  "list_all is_digit ds \<Longrightarrow> digits_acc acc ds = Some (foldl (\<lambda>a c. 10 * a + digit_val c) acc ds)"
  by (induction ds arbitrary: acc) simp_all

lemma digit_chars_value: "foldl (\<lambda>a c. 10 * a + digit_val c) 0 (digit_chars n []) = n"
proof (induction n rule: less_induct)
  case (less n)
  show ?case
  proof (cases "n < 10")
    case True
    then show ?thesis by (simp add: digit_val_char_of digit_chars_small)
  next
    case False
    then have "n div 10 < n" by simp
    from less [OF this] show ?thesis
      by (simp only: digit_chars_large [OF False] foldl_append) (simp add: digit_val_char_of)
  qed
qed

lemma digit_chars_not_Nil: "digit_chars n [] \<noteq> []"
  using digit_chars_small [of n] digit_chars_large [of n] by (cases "n < 10") simp_all

lemma filter_digits: "list_all is_digit ds \<Longrightarrow> filter is_digit ds = ds"
  by (induction ds) simp_all

lemma parse_digits_digits:
  assumes "list_all is_digit (c # cs)"
  shows "parse_digits (c # cs) =
    (if length (c # cs) \<le> int_max_str_digits
     then Some (foldl (\<lambda>a c. 10 * a + digit_val c) 0 (c # cs)) else None)"
proof -
  from assms have c: "is_digit c" and cs: "list_all is_digit cs"
    by simp_all
  have "filter is_digit (c # cs) = c # cs"
    using assms by (rule filter_digits)
  then show ?thesis
    using c by (simp add: parse_digits_def digits_acc_digits [OF cs])
qed

lemma parse_digits_digit_chars:
  "length (digit_chars n []) \<le> int_max_str_digits \<Longrightarrow> parse_digits (digit_chars n []) = Some n"
proof -
  assume len: "length (digit_chars n []) \<le> int_max_str_digits"
  obtain c cs where eq: "digit_chars n [] = c # cs"
    using digit_chars_not_Nil [of n] by (cases "digit_chars n []") simp_all
  have "list_all is_digit (c # cs)"
    using digit_chars_digits [of n] by (simp add: eq)
  from parse_digits_digits [OF this] len digit_chars_value [of n] show ?thesis
    by (simp add: eq)
qed

lemma is_digit_not_special:
  "is_digit c \<Longrightarrow> \<not> is_space c \<and> c \<noteq> CHR ''-'' \<and> c \<noteq> CHR ''+''"
  by (auto simp add: is_digit_def is_space_def)

lemma parse_int_digits:
  "is_digit c \<Longrightarrow> parse_int (c # cs) = map_option int (parse_digits (c # cs))"
  using is_digit_not_special [of c] by (simp add: parse_int_def)

lemma parse_int_decimal:
  assumes "decimal_digits n \<le> int_max_str_digits"
  shows "parse_int (decimal n) = Some n"
proof (cases "n < 0")
  case True
  have "\<not> is_space CHR ''-''" by (simp add: is_space_def)
  moreover have "parse_digits (digit_chars (nat (- n)) []) = Some (nat (- n))"
    using assms True by (intro parse_digits_digit_chars) (simp add: decimal_digits_def)
  ultimately show ?thesis
    using True by (simp add: parse_int_def decimal_def)
next
  case False
  obtain c cs where eq: "digit_chars (nat n) [] = c # cs"
    using digit_chars_not_Nil [of "nat n"] by (cases "digit_chars (nat n) []") simp_all
  have "is_digit c"
    using digit_chars_digits [of "nat n"] by (simp add: eq)
  then have "parse_int (c # cs) = map_option int (parse_digits (c # cs))"
    by (rule parse_int_digits)
  moreover have "parse_digits (digit_chars (nat n) []) = Some (nat n)"
    using assms False by (intro parse_digits_digit_chars) (simp add: decimal_digits_def)
  ultimately show ?thesis
    using False by (simp add: decimal_def eq)
qed

lemma py_str_Inr: "py_str n = Inr s \<longleftrightarrow> decimal_digits n \<le> int_max_str_digits \<and> s = decimal n"
  by (auto simp add: py_str_def)

lemma py_str_Inl: "py_str n = Inl e \<longleftrightarrow> int_max_str_digits < decimal_digits n \<and> e = ValueError"
  by (auto simp add: py_str_def)

text \<open>Plain digit strings: \<^verbatim>\<open>int\<close> accepts exactly those within the limit.\<close>

lemma parse_int_digit_string:
  assumes "s \<noteq> []" and "list_all is_digit s"
  shows "parse_int s \<noteq> None \<longleftrightarrow> length s \<le> int_max_str_digits"
proof -
  from assms(1) obtain c cs where eq: "s = c # cs"
    by (cases s) simp_all
  with assms(2) have "is_digit c" by simp
  then have "parse_int (c # cs) = map_option int (parse_digits (c # cs))"
    by (rule parse_int_digits)
  then show ?thesis
    using parse_digits_digits [of c cs] assms(2) by (simp add: eq)
qed

text \<open>Strings of nines, and the powers of ten.\<close>

lemma nines_value: "foldl (\<lambda>a c. 10 * a + digit_val c) 0 (nines n) + 1 = 10 ^ n"
proof (induction n)
  case 0
  then show ?case by (simp add: nines_def)
next
  case (Suc n)
  have "nines (Suc n) = nines n @ [CHR ''9'']"
    by (simp add: nines_def replicate_append_same)
  then show ?case
    using Suc by (simp add: digit_val_def)
qed

lemma nines_digits: "list_all is_digit (nines n)"
  by (simp add: nines_def is_digit_def list_all_iff)

lemma parse_int_nines:
  "parse_int (nines (Suc n)) =
     (if Suc n \<le> int_max_str_digits then Some (10 ^ Suc n - 1) else None)"
proof -
  have eq: "nines (Suc n) = CHR ''9'' # nines n"
    by (simp add: nines_def)
  have d: "list_all is_digit (CHR ''9'' # nines n)"
    using nines_digits [of "Suc n"] by (simp only: eq)
  have "is_digit CHR ''9''"
    using d by simp
  then have p: "parse_int (CHR ''9'' # nines n) = map_option int (parse_digits (CHR ''9'' # nines n))"
    by (rule parse_int_digits)
  have v: "foldl (\<lambda>a c. 10 * a + digit_val c) 0 (CHR ''9'' # nines n) = 10 ^ Suc n - 1"
    using nines_value [of "Suc n"] unfolding eq by arith
  have len: "length (CHR ''9'' # nines n) = Suc n"
    by (simp add: nines_def)
  have "int (10 ^ Suc n - 1) = 10 ^ Suc n - 1"
    by (simp add: of_nat_diff)
  then show ?thesis
    by (simp only: eq p parse_digits_digits [OF d] v len) simp
qed

lemma digit_chars_power: "length (digit_chars (10 ^ n) []) = Suc n"
proof (induction n)
  case 0
  then show ?case by (simp add: digit_chars_small)
next
  case (Suc n)
  have "\<not> (10::nat) ^ Suc n < 10" by simp
  from digit_chars_large [OF this] Suc show ?case by simp
qed

lemma decimal_digits_power: "decimal_digits (10 ^ n) = Suc n"
proof -
  have "nat \<bar>10 ^ n :: int\<bar> = 10 ^ n"
    by (simp add: nat_power_eq)
  then show ?thesis
    by (simp only: decimal_digits_def digit_chars_power)
qed

lemma foldl_max: "foldl (\<lambda>m y. if m < y then y else m) (x::int) xs = Max (insert x (set xs))"
proof (induction xs arbitrary: x)
  case Nil
  then show ?case by simp
next
  case (Cons a xs)
  have "Max (insert (if x < a then a else x) (set xs)) = Max (insert x (insert a (set xs)))"
  proof (cases "set xs = {}")
    case True
    then show ?thesis by (simp add: max_def)
  next
    case False
    then show ?thesis by (simp add: max_def)
  qed
  then show ?case by (simp add: Cons)
qed

text \<open>The number of digits as a bound on the value.\<close>

lemma decimal_digits_le:
  "0 < k \<Longrightarrow> length (digit_chars n []) \<le> k \<longleftrightarrow> n < 10 ^ k"
proof (induction n arbitrary: k rule: less_induct)
  case (less n)
  show ?case
  proof (cases "n < 10")
    case True
    have "(10::nat) ^ 1 \<le> 10 ^ k"
      using less.prems by (intro power_increasing) simp_all
    with True less.prems show ?thesis
      by (simp add: digit_chars_small)
  next
    case False
    then have lt: "n div 10 < n" by simp
    show ?thesis
    proof (cases k)
      case 0
      with less.prems show ?thesis by simp
    next
      case (Suc m)
      show ?thesis
      proof (cases "m = 0")
        case True
        with False Suc show ?thesis
          using digit_chars_not_Nil [of "n div 10"]
          by (simp add: digit_chars_large [OF False] Suc_le_eq)
      next
        case m: False
        then have "length (digit_chars (n div 10) []) \<le> m \<longleftrightarrow> n div 10 < 10 ^ m"
          using less.IH [OF lt, of m] by simp
        moreover have "n div 10 < 10 ^ m \<longleftrightarrow> n < 10 ^ Suc m"
          by (simp add: div_less_iff_less_mult mult.commute)
        ultimately show ?thesis
          by (simp add: digit_chars_large [OF False] Suc)
      qed
    qed
  qed
qed

lemma decimal_digits_bound:
  "decimal_digits n \<le> int_max_str_digits \<longleftrightarrow> \<bar>n\<bar> < 10 ^ int_max_str_digits"
proof -
  have "0 < int_max_str_digits"
    by (simp add: int_max_str_digits_def)
  from decimal_digits_le [OF this, of "nat \<bar>n\<bar>"]
  have "decimal_digits n \<le> int_max_str_digits \<longleftrightarrow> nat \<bar>n\<bar> < 10 ^ int_max_str_digits"
    by (simp add: decimal_digits_def)
  also have "\<dots> \<longleftrightarrow> \<bar>n\<bar> < 10 ^ int_max_str_digits"
    by (metis abs_ge_zero nat_less_iff of_nat_numeral of_nat_power)
  finally show ?thesis .
qed

lemma limit_pos: "0 < int_max_str_digits"
  by (simp add: int_max_str_digits_def)

lemma parse_int_brimful: "parse_int (nines int_max_str_digits) = Some (10 ^ int_max_str_digits - 1)"
proof -
  from limit_pos obtain k where k: "int_max_str_digits = Suc k"
    by (cases int_max_str_digits) simp_all
  have "parse_int (nines (Suc k)) = Some (10 ^ Suc k - 1)"
    using parse_int_nines [of k] k by (simp only: le_refl if_True)
  then show ?thesis
    by (simp only: k)
qed

lemma parse_int_overlong: "parse_int (nines (Suc int_max_str_digits)) = None"
  using parse_int_nines [of int_max_str_digits] by simp

subsection \<open>Storage helpers and comprehensions\<close>

lemma comprehension_validate:
  "comprehension validate js = (if list_all valid_item js then Inr js else Inl ValidationError)"
  by (induction js) (simp_all add: validate_def)

lemma comprehension_Doc: "comprehension build_item (map Object js) = comprehension validate js"
  by (induction js) (auto split: sum.splits)

lemma comprehension_build_item:
  "comprehension build_item es = Inr data \<Longrightarrow> es = map Object data \<and> list_all valid_item data"
proof (induction es arbitrary: data)
  case Nil
  then show ?case by simp
next
  case (Cons e es)
  then show ?case
    by (cases e) (auto simp add: validate_def split: if_splits sum.splits)
qed

lemma comprehension_raise:
  "comprehension (\<lambda>item. Inl e) xs = Inr data \<Longrightarrow> xs = [] \<and> data = []"
  by (cases xs) simp_all

lemma comprehension_py_int:
  "list_all numeric_id data \<Longrightarrow>
   comprehension (\<lambda>x. py_int (id' x)) data = Inr (map id_value data)"
  by (induction data) (auto simp add: numeric_id_def id_value_def py_int_def split: option.splits)

lemma comprehension_py_int_fail:
  "\<not> list_all numeric_id data \<Longrightarrow>
   \<exists>e. comprehension (\<lambda>x. py_int (id' x)) data = Inl e \<and> (e = TypeError \<or> e = ValueError)"
  by (induction data) (auto simp add: numeric_id_def py_int_def split: option.splits sum.splits)

lemma comprehension_py_int_Inr:
  assumes "comprehension (\<lambda>x. py_int (id' x)) data = Inr ns"
  shows "list_all numeric_id data" and "ns = map id_value data"
proof -
  show "list_all numeric_id data"
    using assms comprehension_py_int_fail [of data] by auto
  then show "ns = map id_value data"
    using assms by (simp add: comprehension_py_int)
qed

lemma py_max_spec: "py_max (map id_value data) 0 + 1 = spec_new_value data"
  by (cases data) (simp_all add: foldl_max spec_new_value_def)

lemma read_data_Inr:
  assumes "read_data w = (Inr data, w')"
  shows "list_all valid_item data"
    and "data_file w' = data_file w"
    and "write_fails w' = write_fails w"
    and "read_fails w' = read_fails w"
    and "data \<noteq> [] \<Longrightarrow> data_file w = Doc data \<and> w' = w \<and> \<not> read_fails w"
  using assms
  by (auto simp add: read_data_def split: backing.splits if_splits
      dest: comprehension_build_item comprehension_raise)

lemma data_file_write_data:
  "data_file (write_data data w) = (if write_fails w then data_file w else Doc data)"
  by (simp add: write_data_def)

lemma read_fails_write_data: "read_fails (write_data data w) = read_fails w"
  by (simp add: write_data_def)

lemma read_data_Doc:
  "data_file w = Doc data \<Longrightarrow> \<not> read_fails w \<Longrightarrow> list_all valid_item data \<Longrightarrow>
   read_data w = (Inr data, w)"
  by (simp add: read_data_def comprehension_Doc comprehension_validate)

subsection \<open>Scanning, filtering, finding\<close>

lemma scan_None: "scan item_id xs k = None \<longleftrightarrow> (\<forall>x\<in>set xs. id' x \<noteq> Some item_id)"
  by (induction xs arbitrary: k) simp_all

lemma scan_first:
  "idx < length xs \<Longrightarrow> id' (xs ! idx) = Some item_id \<Longrightarrow>
   \<forall>j<idx. id' (xs ! j) \<noteq> Some item_id \<Longrightarrow> scan item_id xs k = Some (k + idx)"
proof (induction xs arbitrary: k idx)
  case Nil
  then show ?case by simp
next
  case (Cons x xs)
  show ?case
  proof (cases idx)
    case 0
    with Cons.prems show ?thesis by simp
  next
    case (Suc m)
    from Cons.prems(3) Suc have "id' x \<noteq> Some item_id" by auto
    moreover have "scan item_id xs (Suc k) = Some (Suc k + m)"
    proof (rule Cons.IH)
      show "m < length xs" using Cons.prems(1) Suc by simp
      show "id' (xs ! m) = Some item_id" using Cons.prems(2) Suc by simp
      show "\<forall>j<m. id' (xs ! j) \<noteq> Some item_id" using Cons.prems(3) Suc by auto
    qed
    ultimately show ?thesis using Suc by simp
  qed
qed

lemma scan_Some:
  "scan item_id xs k = Some i \<Longrightarrow>
   k \<le> i \<and> i - k < length xs \<and> id' (xs ! (i - k)) = Some item_id
   \<and> (\<forall>j<i - k. id' (xs ! j) \<noteq> Some item_id)"
proof (induction xs arbitrary: k)
  case Nil
  then show ?case by simp
next
  case (Cons x xs)
  show ?case
  proof (cases "id' x = Some item_id")
    case True
    with Cons.prems show ?thesis by simp
  next
    case False
    with Cons.prems have "scan item_id xs (Suc k) = Some i" by simp
    from Cons.IH [OF this] have ih: "Suc k \<le> i" "i - Suc k < length xs"
      "id' (xs ! (i - Suc k)) = Some item_id" "\<forall>j<i - Suc k. id' (xs ! j) \<noteq> Some item_id"
      by simp_all
    from ih(1) have eq: "i - k = Suc (i - Suc k)" by simp
    have "\<forall>j<i - k. id' ((x # xs) ! j) \<noteq> Some item_id"
    proof (intro allI impI)
      fix j assume "j < i - k"
      then show "id' ((x # xs) ! j) \<noteq> Some item_id"
        using False ih(4) eq by (cases j) simp_all
    qed
    then show ?thesis using ih eq by simp
  qed
qed

lemma filter_keeps_length:
  "length (filter P xs) = length xs \<longleftrightarrow> (\<forall>x\<in>set xs. P x)"
proof (induction xs)
  case Nil
  then show ?case by simp
next
  case (Cons a xs)
  show ?case
  proof (cases "P a")
    case True
    then show ?thesis using Cons by simp
  next
    case False
    have "length (filter P xs) < Suc (length xs)"
      by (simp add: le_imp_less_Suc)
    then show ?thesis using False by auto
  qed
qed

lemma find_append_skip: "\<forall>x\<in>set xs. \<not> P x \<Longrightarrow> find P (xs @ ys) = find P ys"
  by (induction xs) simp_all

lemma find_None: "find P xs = None \<longleftrightarrow> (\<forall>x\<in>set xs. \<not> P x)"
  by (induction xs) simp_all

subsection \<open>New ids\<close>

lemma spec_new_id_fresh:
  assumes "\<forall>x\<in>set data. numeric_id x"
    and "decimal_digits (spec_new_value data) \<le> int_max_str_digits"
    and "x \<in> set data"
  shows "id' x \<noteq> Some (spec_new_id data)"
proof
  assume eq: "id' x = Some (spec_new_id data)"
  from assms(3) have ne: "data \<noteq> []" by auto
  have "id_value x = spec_new_value data"
    using eq by (simp add: id_value_def spec_new_id_def parse_int_decimal [OF assms(2)])
  then have "id_value x = Max (id_value ` set data) + 1"
    using ne by (simp add: spec_new_value_def)
  moreover have "id_value x \<le> Max (id_value ` set data)"
    using assms(3) by simp
  ultimately show False by simp
qed

lemma create_item_run:
  assumes "read_data w = (Inr data, w')"
    and "\<forall>x\<in>set data. numeric_id x"
  shows "create_item item w =
    (case py_str (spec_new_value data) of
       Inl e \<Rightarrow> (Inl e, w')
     | Inr new_id \<Rightarrow>
         (Inr (item\<lparr>id' := Some new_id\<rparr>), write_data (data @ [item\<lparr>id' := Some new_id\<rparr>]) w'))"
proof -
  from assms(2) have "list_all numeric_id data"
    by (simp add: list_all_iff)
  then have "comprehension (\<lambda>x. py_int (id' x)) data = Inr (map id_value data)"
    by (rule comprehension_py_int)
  then show ?thesis
    by (simp add: create_item_def assms(1) py_max_spec Let_def split: sum.splits)
qed

subsection \<open>Partial update\<close>

lemma copy_update_no_fields: "copy_update x no_fields = x"
  by (simp add: copy_update_def no_fields_def)

lemma patch_item_first_match:
  assumes "read_data w = (Inr data, w')"
    and "idx < length data"
    and "id' (data ! idx) = Some item_id"
    and "\<forall>j<idx. id' (data ! j) \<noteq> Some item_id"
  shows "patch_item item_id u w =
           (Inr (copy_update (data ! idx) u), write_data (data[idx := copy_update (data ! idx) u]) w')"
proof -
  have "scan item_id data 0 = Some (0 + idx)"
    using assms(2-4) by (rule scan_first)
  then show ?thesis
    by (simp add: patch_item_def assms(1) Let_def)
qed

subsection \<open>The sample stores\<close>

lemmas samples = bolt_def nut_def widget_def gadget_def shop_def tampered_def fresh_def
  corrupt_def spoiled_def readonly_def writeonly_def garbled_def foreign_def

lemma read_data_shop: "read_data shop = (Inr [bolt, nut], shop)"
  by (simp add: read_data_def samples validate_def valid_item_def)

lemma numeric_id_samples: "numeric_id bolt" "numeric_id nut" "\<not> numeric_id gadget"
  by code_simp+

lemma patch_item_spoils_store:
  "snd (patch_item ''3'' (no_fields\<lparr>upd_name := Some None\<rparr>) shop) = spoiled"
  by (simp add: patch_item_def read_data_shop Let_def copy_update_def no_fields_def write_data_def)
    (simp add: samples)

lemma read_data_tampered: "read_data tampered = (Inr [bolt, gadget], tampered)"
  by (simp add: read_data_def samples validate_def valid_item_def)

lemma read_data_brimful:
  "read_data brimful = (Inr [bolt\<lparr>id' := Some (nines int_max_str_digits)\<rparr>], brimful)"
  by (simp add: read_data_def brimful_def bolt_def validate_def valid_item_def)

lemma numeric_id_brimful: "numeric_id (bolt\<lparr>id' := Some (nines int_max_str_digits)\<rparr>)"
  by (simp add: numeric_id_def parse_int_brimful)

lemma read_data_overlong:
  "read_data overlong = (Inr [bolt\<lparr>id' := Some (nines (Suc int_max_str_digits))\<rparr>], overlong)"
  by (simp add: read_data_def overlong_def bolt_def validate_def valid_item_def)

section \<open>Claims\<close>

text \<open>
  C1, amended. When the collection read from the store has only numeric ids and the new
  id value (greatest id value, or 0 for the empty collection, plus 1) has at most
  \<open>int_max_str_digits\<close> digits, \<open>create_item\<close> gives the payload the decimal numeral of
  that value as id, whatever id the payload carried, hands the collection with the new
  item appended at the end to \<open>write_data\<close>, and returns the new item; when the write does
  not fail the file holds exactly that sequence. When the new id value has more digits,
  \<^verbatim>\<open>str\<close> raises \<^verbatim>\<open>ValueError\<close> and nothing is written.
\<close>

theorem create_item_assigns_next_id:
  assumes "read_data w = (Inr data, w')"
    and "\<forall>x\<in>set data. numeric_id x"
  shows "(decimal_digits (spec_new_value data) \<le> int_max_str_digits \<longrightarrow>
            create_item item w =
              (Inr (item\<lparr>id' := Some (spec_new_id data)\<rparr>),
               write_data (data @ [item\<lparr>id' := Some (spec_new_id data)\<rparr>]) w')
            \<and> (\<not> write_fails w \<longrightarrow>
                 data_file (snd (create_item item w)) =
                   Doc (data @ [item\<lparr>id' := Some (spec_new_id data)\<rparr>])))
         \<and> (int_max_str_digits < decimal_digits (spec_new_value data) \<longrightarrow>
              create_item item w = (Inl ValueError, w') \<and> data_file w' = data_file w)"
proof -
  have same: "data_file w' = data_file w" "write_fails w' = write_fails w"
    using assms(1) by (rule read_data_Inr)+
  show ?thesis
  proof (cases "decimal_digits (spec_new_value data) \<le> int_max_str_digits")
    case True
    then have "py_str (spec_new_value data) = Inr (spec_new_id data)"
      by (simp add: py_str_Inr spec_new_id_def)
    then have "create_item item w =
        (Inr (item\<lparr>id' := Some (spec_new_id data)\<rparr>),
         write_data (data @ [item\<lparr>id' := Some (spec_new_id data)\<rparr>]) w')"
      by (simp add: create_item_run [OF assms])
    then show ?thesis
      using True same by (simp add: data_file_write_data)
  next
    case False
    then have "py_str (spec_new_value data) = Inl ValueError"
      by (simp add: py_str_Inl)
    then have "create_item item w = (Inl ValueError, w')"
      by (simp add: create_item_run [OF assms])
    then show ?thesis
      using False same by simp
  qed
qed

theorem create_item_assigns_next_id_witness:
  "read_data shop = (Inr [bolt, nut], shop)
   \<and> numeric_id bolt \<and> numeric_id nut
   \<and> decimal_digits (spec_new_value [bolt, nut]) \<le> int_max_str_digits
   \<and> create_item widget shop =
       (Inr (widget\<lparr>id' := Some ''11''\<rparr>),
        shop\<lparr>data_file := Doc [bolt, nut, widget\<lparr>id' := Some ''11''\<rparr>]\<rparr>)"
proof -
  have h2: "\<forall>x\<in>set [bolt, nut]. numeric_id x"
    by (simp add: numeric_id_samples)
  have h3: "decimal_digits (spec_new_value [bolt, nut]) \<le> int_max_str_digits"
    by code_simp
  have new: "spec_new_id [bolt, nut] = ''11''"
    by code_simp
  have "write_data [bolt, nut, widget\<lparr>id' := Some ''11''\<rparr>] shop
      = shop\<lparr>data_file := Doc [bolt, nut, widget\<lparr>id' := Some ''11''\<rparr>]\<rparr>"
    by (simp add: write_data_def shop_def)
  with create_item_assigns_next_id [OF read_data_shop h2, of widget] read_data_shop h2 h3
  show ?thesis
    by (simp add: new)
qed

text \<open>
  Without the bound on the digits the property fails: on a store whose only id is
  \<open>int_max_str_digits\<close> nines the id parses, the new id value is a power of ten with one
  digit more, and \<open>create_item\<close> ends with \<^verbatim>\<open>ValueError\<close>.
\<close>

theorem create_item_overflows:
  "read_data brimful = (Inr [bolt\<lparr>id' := Some (nines int_max_str_digits)\<rparr>], brimful)
   \<and> numeric_id (bolt\<lparr>id' := Some (nines int_max_str_digits)\<rparr>)
   \<and> create_item widget brimful = (Inl ValueError, brimful)"
proof -
  let ?x = "bolt\<lparr>id' := Some (nines int_max_str_digits)\<rparr>"
  have "id_value ?x = 10 ^ int_max_str_digits - 1"
    by (simp add: id_value_def parse_int_brimful)
  then have "spec_new_value [?x] = 10 ^ int_max_str_digits"
    by (simp add: spec_new_value_def)
  then have "decimal_digits (spec_new_value [?x]) = Suc int_max_str_digits"
    by (simp only: decimal_digits_power)
  then have "py_str (spec_new_value [?x]) = Inl ValueError"
    by (simp add: py_str_Inl)
  moreover have "\<forall>x\<in>set [?x]. numeric_id x"
    using numeric_id_brimful by simp
  ultimately have "create_item widget brimful = (Inl ValueError, brimful)"
    using create_item_run [OF read_data_brimful, of widget] by simp
  then show ?thesis
    using read_data_brimful numeric_id_brimful by simp
qed

text \<open>
  C2, amended. For a collection read from the store, the comprehension that parses the
  stored ids raises exactly when some id is not numeric, that is, not accepted by \<^verbatim>\<open>int\<close>;
  for a plain string of digits that means more than \<open>int_max_str_digits\<close> digits. The
  error is \<^verbatim>\<open>TypeError\<close> or \<^verbatim>\<open>ValueError\<close>, and \<open>create_item\<close> ends with it in the world
  \<open>read_data\<close> left, whose file is the one before the request: no id was assigned and
  nothing was written. When every stored id is numeric the comprehension returns the id
  values.
\<close>

theorem create_item_malformed_id:
  assumes "read_data w = (Inr data, w')"
  shows "((\<exists>x\<in>set data. \<not> numeric_id x) \<longleftrightarrow>
            (\<exists>e. comprehension (\<lambda>existing_item. py_int (id' existing_item)) data = Inl e))
         \<and> (\<forall>e. comprehension (\<lambda>existing_item. py_int (id' existing_item)) data = Inl e \<longrightarrow>
              (e = TypeError \<or> e = ValueError)
              \<and> create_item item w = (Inl e, w') \<and> data_file w' = data_file w)
         \<and> ((\<forall>x\<in>set data. numeric_id x) \<longrightarrow>
              comprehension (\<lambda>existing_item. py_int (id' existing_item)) data
                = Inr (map id_value data))
         \<and> (\<forall>s. s \<noteq> [] \<and> list_all is_digit s \<longrightarrow>
              (parse_int s \<noteq> None \<longleftrightarrow> length s \<le> int_max_str_digits))"
proof -
  have same: "data_file w' = data_file w"
    using assms by (rule read_data_Inr)
  have digits: "\<forall>s. s \<noteq> [] \<and> list_all is_digit s \<longrightarrow>
      (parse_int s \<noteq> None \<longleftrightarrow> length s \<le> int_max_str_digits)"
    using parse_int_digit_string by blast
  show ?thesis
  proof (cases "list_all numeric_id data")
    case True
    then have "comprehension (\<lambda>x. py_int (id' x)) data = Inr (map id_value data)"
      by (rule comprehension_py_int)
    then show ?thesis
      using True digits by (simp add: list_all_iff)
  next
    case False
    from comprehension_py_int_fail [OF this] obtain e
      where e: "comprehension (\<lambda>x. py_int (id' x)) data = Inl e" "e = TypeError \<or> e = ValueError"
      by blast
    then have "create_item item w = (Inl e, w')"
      by (simp add: create_item_def assms)
    then show ?thesis
      using False e same digits by (auto simp add: list_all_iff)
  qed
qed

theorem create_item_malformed_id_witness:
  "read_data tampered = (Inr [bolt, gadget], tampered)
   \<and> \<not> numeric_id gadget
   \<and> comprehension (\<lambda>existing_item. py_int (id' existing_item)) [bolt, gadget] = Inl ValueError
   \<and> create_item widget tampered = (Inl ValueError, tampered)
   \<and> read_data shop = (Inr [bolt, nut], shop)
   \<and> numeric_id bolt \<and> numeric_id nut
   \<and> comprehension (\<lambda>existing_item. py_int (id' existing_item)) [bolt, nut]
       = Inr [id_value bolt, id_value nut]
   \<and> ''10'' \<noteq> [] \<and> list_all is_digit ''10'' \<and> parse_int ''10'' \<noteq> None"
proof -
  have c: "comprehension (\<lambda>existing_item. py_int (id' existing_item)) [bolt, gadget]
      = Inl ValueError"
    by code_simp
  have d: "list_all is_digit ''10''"
    by code_simp
  have l: "length ''10'' \<le> int_max_str_digits"
    by (simp add: int_max_str_digits_def)
  from create_item_malformed_id [OF read_data_tampered, of widget] c
  have "create_item widget tampered = (Inl ValueError, tampered)"
    by blast
  moreover from create_item_malformed_id [OF read_data_shop, of widget] numeric_id_samples
  have "comprehension (\<lambda>existing_item. py_int (id' existing_item)) [bolt, nut]
      = Inr [id_value bolt, id_value nut]"
    by simp
  moreover from create_item_malformed_id [OF read_data_shop, of widget] d l
  have "parse_int ''10'' \<noteq> None"
    by blast
  ultimately show ?thesis
    using read_data_tampered read_data_shop numeric_id_samples c d by simp
qed

text \<open>
  That the parse fails only on ids that are not base-10 numerals fails on a store whose
  only id is a string of nines with one digit more than \<open>int_max_str_digits\<close>.
\<close>

theorem create_item_rejects_long_numeral:
  "nines (Suc int_max_str_digits) \<noteq> []
   \<and> list_all is_digit (nines (Suc int_max_str_digits))
   \<and> read_data overlong = (Inr [bolt\<lparr>id' := Some (nines (Suc int_max_str_digits))\<rparr>], overlong)
   \<and> create_item widget overlong = (Inl ValueError, overlong)"
proof -
  have "comprehension (\<lambda>x. py_int (id' x)) [bolt\<lparr>id' := Some (nines (Suc int_max_str_digits))\<rparr>]
      = Inl ValueError"
    by (simp add: py_int_def parse_int_overlong)
  then have "create_item widget overlong = (Inl ValueError, overlong)"
    by (simp add: create_item_def read_data_overlong)
  moreover have "nines (Suc int_max_str_digits) \<noteq> []"
    by (simp add: nines_def)
  ultimately show ?thesis
    using read_data_overlong nines_digits by simp
qed

text \<open>
  C3, amended. When \<open>create_item\<close> with a valid payload returns an item, its write did not
  fail and the file can be read, the returned item is the payload with a new id, and
  \<open>get_item\<close> with that id on the resulting store returns the same item: the payload in
  every field but the id.
\<close>

theorem get_item_after_create:
  assumes "create_item item w = (Inr created, w1)"
    and "valid_item item"
    and "\<not> write_fails w"
    and "\<not> read_fails w"
  shows "\<exists>new_id. created = item\<lparr>id' := Some new_id\<rparr> \<and> get_item new_id w1 = (Inr created, w1)"
proof -
  obtain r w' where rd: "read_data w = (r, w')"
    by (cases "read_data w")
  with assms(1) obtain data where r: "r = Inr data"
    by (cases r) (simp_all add: create_item_def)
  from assms(1) obtain ns where ns: "comprehension (\<lambda>x. py_int (id' x)) data = Inr ns"
    by (cases "comprehension (\<lambda>x. py_int (id' x)) data") (simp_all add: create_item_def rd r)
  from assms(1) obtain s where s: "py_str (py_max ns 0 + 1) = Inr s"
    by (cases "py_str (py_max ns 0 + 1)") (simp_all add: create_item_def rd r ns)
  from assms(1) have created: "created = item\<lparr>id' := Some s\<rparr>"
    and w1: "w1 = write_data (data @ [created]) w'"
    by (auto simp add: create_item_def rd r ns s Let_def)
  from comprehension_py_int_Inr [OF ns] have numeric: "\<forall>x\<in>set data. numeric_id x"
    and "ns = map id_value data"
    by (simp_all add: list_all_iff)
  with s have "py_str (spec_new_value data) = Inr s"
    by (simp add: py_max_spec)
  then have digits: "decimal_digits (spec_new_value data) \<le> int_max_str_digits"
    and new: "s = spec_new_id data"
    by (simp_all add: py_str_Inr spec_new_id_def)
  from rd r have "list_all valid_item data" "write_fails w' = write_fails w"
    "read_fails w' = read_fails w"
    by (auto dest: read_data_Inr)
  with assms(2-4) have "data_file w1 = Doc (data @ [created])" "\<not> read_fails w1"
    "list_all valid_item (data @ [created])"
    by (simp_all add: w1 created data_file_write_data read_fails_write_data valid_item_def)
  then have "read_data w1 = (Inr (data @ [created]), w1)"
    by (rule read_data_Doc)
  moreover have "find (\<lambda>x. id' x = Some s) (data @ [created]) = Some created"
    using spec_new_id_fresh [OF numeric digits] by (simp add: find_append_skip new created)
  ultimately have "get_item s w1 = (Inr created, w1)"
    by (simp add: get_item_def)
  with created show ?thesis by blast
qed

theorem get_item_after_create_witness:
  "create_item widget shop =
     (Inr (widget\<lparr>id' := Some ''11''\<rparr>),
      shop\<lparr>data_file := Doc [bolt, nut, widget\<lparr>id' := Some ''11''\<rparr>]\<rparr>)
   \<and> valid_item widget \<and> \<not> write_fails shop \<and> \<not> read_fails shop
   \<and> get_item ''11'' (shop\<lparr>data_file := Doc [bolt, nut, widget\<lparr>id' := Some ''11''\<rparr>]\<rparr>) =
       (Inr (widget\<lparr>id' := Some ''11''\<rparr>),
        shop\<lparr>data_file := Doc [bolt, nut, widget\<lparr>id' := Some ''11''\<rparr>]\<rparr>)"
proof -
  have h1: "create_item widget shop =
     (Inr (widget\<lparr>id' := Some ''11''\<rparr>),
      shop\<lparr>data_file := Doc [bolt, nut, widget\<lparr>id' := Some ''11''\<rparr>]\<rparr>)"
    by code_simp
  have h2: "valid_item widget"
    by (simp add: valid_item_def widget_def)
  have h3: "\<not> write_fails shop" and h4: "\<not> read_fails shop"
    by (simp_all add: shop_def)
  from get_item_after_create [OF h1 h2 h3 h4] obtain new_id
    where "widget\<lparr>id' := Some ''11''\<rparr> = widget\<lparr>id' := Some new_id\<rparr>"
      and g: "get_item new_id (shop\<lparr>data_file := Doc [bolt, nut, widget\<lparr>id' := Some ''11''\<rparr>]\<rparr>) =
        (Inr (widget\<lparr>id' := Some ''11''\<rparr>),
         shop\<lparr>data_file := Doc [bolt, nut, widget\<lparr>id' := Some ''11''\<rparr>]\<rparr>)"
    by blast
  then have "new_id = ''11''"
    by (simp add: widget_def)
  with g h1 h2 h3 h4 show ?thesis
    by simp
qed

text \<open>
  Without the two provisos the property fails. On a file that cannot be written
  \<open>create_item\<close> prints the error and returns the item with its new id, and the following
  \<open>get_item\<close> does not find it. On a file that can be written and not read \<open>create_item\<close>
  reads an empty collection, stores the item with id 1, and the following \<open>get_item\<close>
  reads an empty collection again.
\<close>

theorem get_item_after_create_unwritten:
  "create_item widget readonly =
     (Inr (widget\<lparr>id' := Some ''11''\<rparr>), readonly\<lparr>stdout := [WriteError]\<rparr>)
   \<and> get_item ''11'' (readonly\<lparr>stdout := [WriteError]\<rparr>) =
       (Inl NotFound, readonly\<lparr>stdout := [WriteError]\<rparr>)
   \<and> create_item widget writeonly =
       (Inr (widget\<lparr>id' := Some ''1''\<rparr>),
        writeonly\<lparr>data_file := Doc [widget\<lparr>id' := Some ''1''\<rparr>], stdout := [ReadError]\<rparr>)
   \<and> get_item ''1''
        (writeonly\<lparr>data_file := Doc [widget\<lparr>id' := Some ''1''\<rparr>], stdout := [ReadError]\<rparr>) =
       (Inl NotFound,
        writeonly\<lparr>data_file := Doc [widget\<lparr>id' := Some ''1''\<rparr>],
          stdout := [ReadError, ReadError]\<rparr>)"
  by code_simp

text \<open>
  C4. Let \<open>idx\<close> be the position of the first item whose id is the path id. \<open>patch_item\<close>
  with no field supplied returns that item, hands the collection as it was read to
  \<open>write_data\<close> and leaves the file as it was. With only \<open>quantity\<close> supplied it returns and
  stores the item with \<open>quantity\<close> replaced: id, name, description and price are those of
  the item before, and every other position of the collection is unchanged.
\<close>

theorem patch_item_partial_update:
  assumes "read_data w = (Inr data, w')"
    and "idx < length data"
    and "id' (data ! idx) = Some item_id"
    and "\<forall>j<idx. id' (data ! j) \<noteq> Some item_id"
  shows "patch_item item_id no_fields w = (Inr (data ! idx), write_data data w')
         \<and> data_file (snd (patch_item item_id no_fields w)) = data_file w
         \<and> patch_item item_id (no_fields\<lparr>upd_quantity := Some q\<rparr>) w =
             (Inr ((data ! idx)\<lparr>quantity := q\<rparr>),
              write_data (data[idx := (data ! idx)\<lparr>quantity := q\<rparr>]) w')
         \<and> (\<not> write_fails w \<longrightarrow>
              data_file (snd (patch_item item_id (no_fields\<lparr>upd_quantity := Some q\<rparr>) w)) =
                Doc (data[idx := (data ! idx)\<lparr>quantity := q\<rparr>]))
         \<and> id' ((data ! idx)\<lparr>quantity := q\<rparr>) = id' (data ! idx)
         \<and> name ((data ! idx)\<lparr>quantity := q\<rparr>) = name (data ! idx)
         \<and> description ((data ! idx)\<lparr>quantity := q\<rparr>) = description (data ! idx)
         \<and> price ((data ! idx)\<lparr>quantity := q\<rparr>) = price (data ! idx)
         \<and> (\<forall>j<length data. j \<noteq> idx \<longrightarrow>
              data[idx := (data ! idx)\<lparr>quantity := q\<rparr>] ! j = data ! j)"
proof -
  from assms(2) have "data \<noteq> []" by auto
  with assms(1) have store: "data_file w = Doc data" "w' = w"
    by (auto dest: read_data_Inr)
  have empty: "patch_item item_id no_fields w = (Inr (data ! idx), write_data data w')"
    using patch_item_first_match [OF assms, of no_fields]
    by (simp add: copy_update_no_fields)
  have "copy_update (data ! idx) (no_fields\<lparr>upd_quantity := Some q\<rparr>) = (data ! idx)\<lparr>quantity := q\<rparr>"
    by (simp add: copy_update_def no_fields_def)
  then have qty: "patch_item item_id (no_fields\<lparr>upd_quantity := Some q\<rparr>) w =
      (Inr ((data ! idx)\<lparr>quantity := q\<rparr>),
       write_data (data[idx := (data ! idx)\<lparr>quantity := q\<rparr>]) w')"
    using patch_item_first_match [OF assms, of "no_fields\<lparr>upd_quantity := Some q\<rparr>"]
    by simp
  show ?thesis
    by (simp add: empty qty store data_file_write_data)
qed

theorem patch_item_partial_update_witness:
  "read_data shop = (Inr [bolt, nut], shop)
   \<and> id' ([bolt, nut] ! 1) = Some ''10'' \<and> id' ([bolt, nut] ! 0) \<noteq> Some ''10''
   \<and> patch_item ''10'' no_fields shop = (Inr nut, shop)
   \<and> patch_item ''10'' (no_fields\<lparr>upd_quantity := Some (Some 5)\<rparr>) shop =
       (Inr (nut\<lparr>quantity := Some 5\<rparr>),
        shop\<lparr>data_file := Doc [bolt, nut\<lparr>quantity := Some 5\<rparr>]\<rparr>)"
proof -
  have a: "(1::nat) < length [bolt, nut]" "id' ([bolt, nut] ! 1) = Some ''10''"
    "\<forall>j<1. id' ([bolt, nut] ! j) \<noteq> Some ''10''"
    by (simp_all add: samples)
  have w: "write_data [bolt, nut] shop = shop"
    "write_data [bolt, nut\<lparr>quantity := Some 5\<rparr>] shop
      = shop\<lparr>data_file := Doc [bolt, nut\<lparr>quantity := Some 5\<rparr>]\<rparr>"
    by (simp_all add: write_data_def shop_def)
  from patch_item_partial_update [OF read_data_shop a, of "Some 5"] a read_data_shop
  show ?thesis
    by (simp add: w)
qed

text \<open>
  C5. For a collection read from the store that has an item with the path id, and a valid
  payload, \<open>update_item\<close> returns the payload with the path id, and a second
  \<open>update_item\<close> with the same id and payload on the resulting store returns the same item
  and leaves the same file.
\<close>

theorem update_item_idempotent:
  assumes "read_data w = (Inr data, w')"
    and "\<exists>x\<in>set data. id' x = Some item_id"
    and "valid_item item"
  shows "fst (update_item item_id item w) = Inr (item\<lparr>id' := Some item_id\<rparr>)
         \<and> fst (update_item item_id item (snd (update_item item_id item w))) =
             fst (update_item item_id item w)
         \<and> data_file (snd (update_item item_id item (snd (update_item item_id item w)))) =
             data_file (snd (update_item item_id item w))"
proof -
  let ?item1 = "item\<lparr>id' := Some item_id\<rparr>"
  from assms(2) obtain i where sc: "scan item_id data 0 = Some i"
    using scan_None [of item_id data 0] by auto
  from scan_Some [OF sc] have first: "i < length data" "id' (data ! i) = Some item_id"
    "\<forall>j<i. id' (data ! j) \<noteq> Some item_id"
    by simp_all
  let ?data1 = "data[i := ?item1]"
  let ?w1 = "write_data ?data1 w'"
  have run1: "update_item item_id item w = (Inr ?item1, ?w1)"
    by (simp add: update_item_def assms(1) sc Let_def)
  from first(1) have "data \<noteq> []" by auto
  with assms(1) have store: "data_file w = Doc data" "w' = w" "list_all valid_item data"
    "\<not> read_fails w"
    by (auto dest: read_data_Inr)
  have rf: "\<not> read_fails ?w1"
    using store by (simp add: read_fails_write_data)
  have sc1: "scan item_id ?data1 0 = Some (0 + i)"
    using first by (intro scan_first) simp_all
  have valid1: "list_all valid_item ?data1"
    using store(3) assms(3) set_update_subset_insert [of data i ?item1]
    by (auto simp add: list_all_iff valid_item_def)
  show ?thesis
  proof (cases "write_fails w")
    case True
    then have f1: "data_file ?w1 = Doc data" and wf: "write_fails ?w1"
      by (simp_all add: store write_data_def)
    from f1 rf store(3) have "read_data ?w1 = (Inr data, ?w1)"
      by (rule read_data_Doc)
    then have "update_item item_id item ?w1 = (Inr ?item1, write_data ?data1 ?w1)"
      by (simp add: update_item_def sc Let_def)
    then show ?thesis
      using wf by (simp add: run1 data_file_write_data)
  next
    case False
    then have f1: "data_file ?w1 = Doc ?data1" and wf: "\<not> write_fails ?w1"
      by (simp_all add: store write_data_def)
    from f1 rf valid1 have "read_data ?w1 = (Inr ?data1, ?w1)"
      by (rule read_data_Doc)
    then have "update_item item_id item ?w1 = (Inr ?item1, write_data (?data1[i := ?item1]) ?w1)"
      using sc1 by (simp add: update_item_def Let_def)
    then show ?thesis
      using wf f1 by (simp add: run1 data_file_write_data)
  qed
qed

theorem update_item_idempotent_witness:
  "read_data shop = (Inr [bolt, nut], shop)
   \<and> id' nut = Some ''10'' \<and> valid_item widget
   \<and> fst (update_item ''10'' widget shop) = Inr (widget\<lparr>id' := Some ''10''\<rparr>)
   \<and> fst (update_item ''10'' widget (snd (update_item ''10'' widget shop))) =
       fst (update_item ''10'' widget shop)
   \<and> data_file (snd (update_item ''10'' widget (snd (update_item ''10'' widget shop)))) =
       data_file (snd (update_item ''10'' widget shop))"
proof -
  have h2: "\<exists>x\<in>set [bolt, nut]. id' x = Some ''10''"
    by (simp add: samples)
  have h3: "valid_item widget"
    by (simp add: valid_item_def widget_def)
  from update_item_idempotent [OF read_data_shop h2 h3] read_data_shop h3 show ?thesis
    by (simp add: nut_def)
qed

text \<open>
  C6. For a collection read from the store: when \<open>idx\<close> is the position of the first item
  whose id is the path id, \<open>update_item\<close> returns the payload with its id overwritten by
  the path id and hands the collection with that item at position \<open>idx\<close> to \<open>write_data\<close>
  (the file holds it when the write does not fail); the stored item's id is the path id
  whatever id the payload carried. When no item has the path id the result is
  \<open>NotFound\<close> and nothing is written.
\<close>

theorem update_item_replaces_first_match:
  assumes "read_data w = (Inr data, w')"
  shows "(\<forall>idx. idx < length data \<and> id' (data ! idx) = Some item_id
              \<and> (\<forall>j<idx. id' (data ! j) \<noteq> Some item_id) \<longrightarrow>
            update_item item_id item w =
              (Inr (item\<lparr>id' := Some item_id\<rparr>),
               write_data (data[idx := item\<lparr>id' := Some item_id\<rparr>]) w')
            \<and> id' (data[idx := item\<lparr>id' := Some item_id\<rparr>] ! idx) = Some item_id
            \<and> (\<not> write_fails w \<longrightarrow>
                 data_file (snd (update_item item_id item w)) =
                   Doc (data[idx := item\<lparr>id' := Some item_id\<rparr>])))
         \<and> ((\<forall>x\<in>set data. id' x \<noteq> Some item_id) \<longrightarrow>
              update_item item_id item w = (Inl NotFound, w'))"
proof (intro conjI allI impI)
  fix idx
  assume first: "idx < length data \<and> id' (data ! idx) = Some item_id
    \<and> (\<forall>j<idx. id' (data ! j) \<noteq> Some item_id)"
  then have "scan item_id data 0 = Some (0 + idx)"
    by (intro scan_first) simp_all
  then show run: "update_item item_id item w =
      (Inr (item\<lparr>id' := Some item_id\<rparr>),
       write_data (data[idx := item\<lparr>id' := Some item_id\<rparr>]) w')"
    by (simp add: update_item_def assms Let_def)
  show "id' (data[idx := item\<lparr>id' := Some item_id\<rparr>] ! idx) = Some item_id"
    using first by simp
  assume "\<not> write_fails w"
  moreover have "write_fails w' = write_fails w"
    using assms by (rule read_data_Inr)
  ultimately show "data_file (snd (update_item item_id item w)) =
      Doc (data[idx := item\<lparr>id' := Some item_id\<rparr>])"
    by (simp add: run data_file_write_data)
next
  assume "\<forall>x\<in>set data. id' x \<noteq> Some item_id"
  then have "scan item_id data 0 = None"
    by (simp add: scan_None)
  then show "update_item item_id item w = (Inl NotFound, w')"
    by (simp add: update_item_def assms)
qed

theorem update_item_replaces_first_match_witness:
  "read_data shop = (Inr [bolt, nut], shop)
   \<and> id' ([bolt, nut] ! 1) = Some ''10'' \<and> id' ([bolt, nut] ! 0) \<noteq> Some ''10''
   \<and> update_item ''10'' widget shop =
       (Inr (widget\<lparr>id' := Some ''10''\<rparr>),
        shop\<lparr>data_file := Doc [bolt, widget\<lparr>id' := Some ''10''\<rparr>]\<rparr>)
   \<and> id' bolt \<noteq> Some ''99'' \<and> id' nut \<noteq> Some ''99''
   \<and> update_item ''99'' widget shop = (Inl NotFound, shop)"
proof -
  have a: "(1::nat) < length [bolt, nut] \<and> id' ([bolt, nut] ! 1) = Some ''10''
      \<and> (\<forall>j<1. id' ([bolt, nut] ! j) \<noteq> Some ''10'')"
    by (simp add: samples)
  have b: "\<forall>x\<in>set [bolt, nut]. id' x \<noteq> Some ''99''"
    by (simp add: samples)
  have w: "write_data [bolt, widget\<lparr>id' := Some ''10''\<rparr>] shop
      = shop\<lparr>data_file := Doc [bolt, widget\<lparr>id' := Some ''10''\<rparr>]\<rparr>"
    by (simp add: write_data_def shop_def)
  from update_item_replaces_first_match [OF read_data_shop, of "''10''" widget]
  have "update_item ''10'' widget shop =
      (Inr (widget\<lparr>id' := Some ''10''\<rparr>), write_data ([bolt, nut][1 := widget\<lparr>id' := Some ''10''\<rparr>]) shop)"
    using a by blast
  moreover from update_item_replaces_first_match [OF read_data_shop, of "''99''" widget]
  have "update_item ''99'' widget shop = (Inl NotFound, shop)"
    using b by blast
  ultimately show ?thesis
    using a b read_data_shop by (simp add: w)
qed

text \<open>
  C7. For a collection read from the store, \<open>delete_item\<close> answers \<open>NotFound\<close> exactly when
  no item has the path id, which is exactly when the filtered sequence is as long as the
  original; in that case \<open>write_data\<close> is not called and the file is the one before the
  request. Otherwise it hands the sequence without every item of that id to \<open>write_data\<close>
  (the file holds it when the write does not fail) and returns nothing.
\<close>

theorem delete_item_filters:
  assumes "read_data w = (Inr data, w')"
  shows "(fst (delete_item item_id w) = Inl NotFound \<longleftrightarrow> (\<forall>x\<in>set data. id' x \<noteq> Some item_id))
         \<and> (length (filter (\<lambda>item. id' item \<noteq> Some item_id) data) = length data \<longleftrightarrow>
              (\<forall>x\<in>set data. id' x \<noteq> Some item_id))
         \<and> ((\<forall>x\<in>set data. id' x \<noteq> Some item_id) \<longrightarrow>
              delete_item item_id w = (Inl NotFound, w') \<and> data_file w' = data_file w)
         \<and> ((\<exists>x\<in>set data. id' x = Some item_id) \<longrightarrow>
              delete_item item_id w =
                (Inr (), write_data (filter (\<lambda>item. id' item \<noteq> Some item_id) data) w')
              \<and> (\<not> write_fails w \<longrightarrow>
                   data_file (snd (delete_item item_id w)) =
                     Doc (filter (\<lambda>item. id' item \<noteq> Some item_id) data)))"
proof -
  have len: "length (filter (\<lambda>item. id' item \<noteq> Some item_id) data) = length data \<longleftrightarrow>
      (\<forall>x\<in>set data. id' x \<noteq> Some item_id)"
    by (rule filter_keeps_length)
  have same: "data_file w' = data_file w" "write_fails w' = write_fails w"
    using assms by (rule read_data_Inr)+
  show ?thesis
  proof (cases "\<forall>x\<in>set data. id' x \<noteq> Some item_id")
    case True
    then have "delete_item item_id w = (Inl NotFound, w')"
      using len by (simp add: delete_item_def assms Let_def)
    then show ?thesis using True len same by auto
  next
    case False
    then have "delete_item item_id w =
        (Inr (), write_data (filter (\<lambda>item. id' item \<noteq> Some item_id) data) w')"
      using len by (simp add: delete_item_def assms Let_def)
    then show ?thesis using False len same by (auto simp add: data_file_write_data)
  qed
qed

theorem delete_item_filters_witness:
  "read_data shop = (Inr [bolt, nut], shop)
   \<and> id' bolt = Some ''3''
   \<and> delete_item ''3'' shop = (Inr (), shop\<lparr>data_file := Doc [nut]\<rparr>)
   \<and> id' bolt \<noteq> Some ''99'' \<and> id' nut \<noteq> Some ''99''
   \<and> delete_item ''99'' shop = (Inl NotFound, shop)"
proof -
  have a: "\<exists>x\<in>set [bolt, nut]. id' x = Some ''3''"
    by (simp add: samples)
  have b: "\<forall>x\<in>set [bolt, nut]. id' x \<noteq> Some ''99''"
    by (simp add: samples)
  have f: "filter (\<lambda>item. id' item \<noteq> Some ''3'') [bolt, nut] = [nut]"
    by (simp add: samples)
  have w: "write_data [nut] shop = shop\<lparr>data_file := Doc [nut]\<rparr>"
    by (simp add: write_data_def shop_def)
  from delete_item_filters [OF read_data_shop, of "''3''"] a
  have "delete_item ''3'' shop =
      (Inr (), write_data (filter (\<lambda>item. id' item \<noteq> Some ''3'') [bolt, nut]) shop)"
    by blast
  then have "delete_item ''3'' shop = (Inr (), shop\<lparr>data_file := Doc [nut]\<rparr>)"
    by (simp only: f w)
  moreover from delete_item_filters [OF read_data_shop, of "''99''"] b
  have "delete_item ''99'' shop = (Inl NotFound, shop)"
    by blast
  ultimately show ?thesis
    using read_data_shop b by (simp add: bolt_def)
qed

text \<open>
  C8, amended. When \<open>delete_item\<close> returns without error and its write did not fail,
  \<open>get_item\<close> with the same id on the resulting store answers \<open>NotFound\<close>.
\<close>

theorem get_item_after_delete:
  assumes "delete_item item_id w = (Inr (), w1)" and "\<not> write_fails w"
  shows "get_item item_id w1 = (Inl NotFound, w1)"
proof -
  obtain r w' where rd: "read_data w = (r, w')"
    by (cases "read_data w")
  with assms(1) obtain data where r: "r = Inr data"
    by (cases r) (simp_all add: delete_item_def)
  let ?new = "filter (\<lambda>item. id' item \<noteq> Some item_id) data"
  from assms(1) have w1: "w1 = write_data ?new w'"
    by (simp add: delete_item_def rd r Let_def split: if_splits)
  from assms(1) have "length ?new \<noteq> length data"
    by (simp add: delete_item_def rd r Let_def split: if_splits)
  then have "data \<noteq> []"
    by auto
  with rd r have "list_all valid_item data" "write_fails w' = write_fails w"
    "\<not> read_fails w'"
    by (auto dest: read_data_Inr)
  with assms(2) have "data_file w1 = Doc ?new" "\<not> read_fails w1" "list_all valid_item ?new"
    by (simp_all add: w1 data_file_write_data read_fails_write_data list_all_iff)
  then have "read_data w1 = (Inr ?new, w1)"
    by (rule read_data_Doc)
  moreover have "find (\<lambda>item. id' item = Some item_id) ?new = None"
    by (simp add: find_None)
  ultimately show ?thesis
    by (simp add: get_item_def)
qed

theorem get_item_after_delete_witness:
  "delete_item ''3'' shop = (Inr (), shop\<lparr>data_file := Doc [nut]\<rparr>)
   \<and> \<not> write_fails shop
   \<and> get_item ''3'' (shop\<lparr>data_file := Doc [nut]\<rparr>)
       = (Inl NotFound, shop\<lparr>data_file := Doc [nut]\<rparr>)"
proof -
  have h1: "delete_item ''3'' shop = (Inr (), shop\<lparr>data_file := Doc [nut]\<rparr>)"
    by (simp add: delete_item_def read_data_shop Let_def) (simp add: write_data_def samples)
  have h2: "\<not> write_fails shop"
    by (simp add: shop_def)
  from get_item_after_delete [OF h1 h2] h1 h2 show ?thesis
    by simp
qed

text \<open>
  Without the proviso on the write the property fails: on a file that cannot be written
  \<open>delete_item\<close> prints the error and returns without error, and the following
  \<open>get_item\<close> still finds the item.
\<close>

theorem get_item_after_delete_unwritten:
  "delete_item ''3'' readonly = (Inr (), readonly\<lparr>stdout := [WriteError]\<rparr>)
   \<and> get_item ''3'' (readonly\<lparr>stdout := [WriteError]\<rparr>) =
       (Inr bolt, readonly\<lparr>stdout := [WriteError]\<rparr>)"
  by code_simp




text \<open>
  C10. Let \<open>idx\<close> be the position of the first item whose id is the path id. \<open>patch_item\<close>
  returns an item and hands the collection with that item at position \<open>idx\<close> to
  \<open>write_data\<close> (the file holds it when the write does not fail). Each field of that item
  is \<open>None\<close> when the payload supplied the field as \<^verbatim>\<open>null\<close>, also for the required
  fields name, price and quantity, and is the field of the item before when the payload
  did not supply it.
\<close>

theorem patch_item_null_overwrites:
  assumes "read_data w = (Inr data, w')"
    and "idx < length data"
    and "id' (data ! idx) = Some item_id"
    and "\<forall>j<idx. id' (data ! j) \<noteq> Some item_id"
  shows "\<exists>stored.
           patch_item item_id u w = (Inr stored, write_data (data[idx := stored]) w')
           \<and> (\<not> write_fails w \<longrightarrow>
                data_file (snd (patch_item item_id u w)) = Doc (data[idx := stored]))
           \<and> (upd_name u = Some None \<longrightarrow> name stored = None)
           \<and> (upd_description u = Some None \<longrightarrow> description stored = None)
           \<and> (upd_price u = Some None \<longrightarrow> price stored = None)
           \<and> (upd_quantity u = Some None \<longrightarrow> quantity stored = None)
           \<and> (upd_name u = None \<longrightarrow> name stored = name (data ! idx))
           \<and> (upd_description u = None \<longrightarrow> description stored = description (data ! idx))
           \<and> (upd_price u = None \<longrightarrow> price stored = price (data ! idx))
           \<and> (upd_quantity u = None \<longrightarrow> quantity stored = quantity (data ! idx))"
proof -
  from assms(2) have "data \<noteq> []" by auto
  with assms(1) have "w' = w"
    by (auto dest: read_data_Inr)
  then show ?thesis
    using patch_item_first_match [OF assms, of u]
    by (intro exI [of _ "copy_update (data ! idx) u"])
      (simp add: data_file_write_data copy_update_def)
qed

theorem patch_item_null_overwrites_witness:
  "read_data shop = (Inr [bolt, nut], shop)
   \<and> id' ([bolt, nut] ! 0) = Some ''3''
   \<and> upd_name (no_fields\<lparr>upd_name := Some None\<rparr> :: int ItemUpdate) = Some None
   \<and> (\<exists>stored.
        patch_item ''3'' (no_fields\<lparr>upd_name := Some None\<rparr>) shop =
          (Inr stored, write_data [stored, nut] shop)
        \<and> data_file (snd (patch_item ''3'' (no_fields\<lparr>upd_name := Some None\<rparr>) shop)) =
            Doc [stored, nut]
        \<and> name stored = None
        \<and> description stored = description bolt
        \<and> price stored = price bolt
        \<and> quantity stored = quantity bolt)"
proof -
  have a: "(0::nat) < length [bolt, nut]" "id' ([bolt, nut] ! 0) = Some ''3''"
    "\<forall>j<0. id' ([bolt, nut] ! j) \<noteq> Some ''3''"
    by (simp_all add: samples)
  have n: "\<not> write_fails shop"
    by (simp add: shop_def)
  from patch_item_null_overwrites [OF read_data_shop a, of "no_fields\<lparr>upd_name := Some None\<rparr>"]
    a n read_data_shop
  show ?thesis
    by (simp add: no_fields_def)
qed

end
